theory Spec2Isabelle
  imports Complex_Main "HOL-Library.Word" "HOL-Library.Multiset"
begin

section \<open>JavaScript values used by the board\<close>

text \<open>
  A JavaScript string is a sequence of 16-bit code units; \<open>length\<close> counts code units,
  as \<^verbatim>\<open>String.prototype.length\<close> does, and \<^verbatim>\<open>===\<close> on strings is equality of
  the sequences. \<open>lit\<close> embeds an ASCII literal of the source.
\<close>

type_synonym jsstring = "16 word list"

definition lit :: "string \<Rightarrow> jsstring" where
  "lit s = map of_char s"

text \<open>
  \<^verbatim>\<open>String.prototype.trim\<close> strips WhiteSpace and LineTerminator code points from both
  ends (ECMAScript: TAB, VT, FF, ZWNBSP, the Unicode space separators, LF, CR, LS, PS).
\<close>

definition isWhiteSpace :: "16 word \<Rightarrow> bool" where
  "isWhiteSpace c \<longleftrightarrow>
     c = 0x0009 \<or> c = 0x000A \<or> c = 0x000B \<or> c = 0x000C \<or> c = 0x000D \<or> c = 0x0020 \<or>
     c = 0x00A0 \<or> c = 0x1680 \<or> (0x2000 \<le> c \<and> c \<le> 0x200A) \<or> c = 0x2028 \<or>
     c = 0x2029 \<or> c = 0x202F \<or> c = 0x205F \<or> c = 0x3000 \<or> c = 0xFEFF"

definition trim :: "jsstring \<Rightarrow> jsstring" where
  "trim s = rev (dropWhile isWhiteSpace (rev (dropWhile isWhiteSpace s)))"

text \<open>
  The value of a task's \<^verbatim>\<open>status\<close> property and of a column's \<^verbatim>\<open>dataset.status\<close>:
  a string, or \<^verbatim>\<open>undefined\<close> when the attribute is missing.
\<close>

datatype jsval = Undefined | Str jsstring

text \<open>
  What the source throws: \<^verbatim>\<open>new Error(message)\<close> in \<^verbatim>\<open>createTask\<close>, and the
  \<^verbatim>\<open>TypeError\<close> of reading a property of \<^verbatim>\<open>null\<close> in the drag and drop code.
\<close>

datatype error = Error jsstring

datatype type_error = TypeError

text \<open>
  \<^verbatim>\<open>Array.prototype.findIndex\<close> and \<^verbatim>\<open>indexOf\<close>: the first index, or \<open>-1\<close>.
\<close>

fun findIndex :: "('a \<Rightarrow> bool) \<Rightarrow> 'a list \<Rightarrow> int" where
  "findIndex P [] = - 1"
| "findIndex P (x # xs) =
     (if P x then 0 else (let i = findIndex P xs in if i = - 1 then - 1 else i + 1))"

definition indexOf :: "'a \<Rightarrow> 'a list \<Rightarrow> int" where
  "indexOf x xs = findIndex (\<lambda>y. y = x) xs"

text \<open>
  \<^verbatim>\<open>xs.splice(start, deleteCount, ...items)\<close>, returning the array as it is afterwards.
  A negative \<open>start\<close> counts from the end and a \<open>start\<close> beyond the end is the end;
  \<open>drop\<close> bounds the number of deleted elements by what is left.
\<close>

definition splice :: "int \<Rightarrow> nat \<Rightarrow> 'a list \<Rightarrow> 'a list \<Rightarrow> 'a list" where
  "splice start deleteCount items xs =
     (let len = int (length xs);
          actualStart = nat (if start < 0 then max (len + start) 0 else min start len)
      in take actualStart xs @ items @ drop (actualStart + deleteCount) xs)"

section \<open>Task store (TaskManager)\<close>

record task =
  task_id :: jsstring
  title :: jsstring
  description :: jsstring
  status :: jsval
  createdAt :: jsstring
  updatedAt :: jsstring

text \<open>
  The store is \<^verbatim>\<open>this.tasks\<close>, an array of task objects. Every entry is its own object
  (tasks come from \<^verbatim>\<open>JSON.parse\<close> or from \<^verbatim>\<open>createTask\<close>), so a task is modelled
  by its value and mutation of one task updates one entry of the list. Saving to
  \<^verbatim>\<open>localStorage\<close> swallows its errors and rendering only reads the list; neither
  changes \<^verbatim>\<open>this.tasks\<close>.

  \<open>createTask\<close> takes the values the environment supplies: the identifier produced by
  \<^verbatim>\<open>DOMUtils.generateUniqueId('task')\<close> and the two clock readings. It returns the
  thrown error or the created task, together with the task list afterwards.
\<close>

definition createTask ::
  "task list \<Rightarrow> jsstring \<Rightarrow> jsstring \<Rightarrow> jsstring \<Rightarrow> jsstring \<Rightarrow> jsstring
     \<Rightarrow> (error + task) \<times> task list" where
  "createTask tasks ttl descr newId now1 now2 =
     (if trim ttl = [] then (Inl (Error (lit ''Task title is required'')), tasks)
      else
        (let t = \<lparr> task_id = newId, title = trim ttl, description = trim descr,
                   status = Str (lit ''todo''), createdAt = now1, updatedAt = now2 \<rparr>
         in (Inr t, tasks @ [t])))"

definition updateTaskStatus :: "task list \<Rightarrow> jsstring \<Rightarrow> jsval \<Rightarrow> jsstring \<Rightarrow> task list" where
  "updateTaskStatus tasks taskId newStatus now =
     (case List.find (\<lambda>t. task_id t = taskId) tasks of
        None \<Rightarrow> tasks
      | Some t \<Rightarrow>
          tasks[nat (findIndex (\<lambda>t. task_id t = taskId) tasks) :=
                  t\<lparr> status := newStatus, updatedAt := now \<rparr>])"

text \<open>
  \<^verbatim>\<open>this.tasks.indexOf(task)\<close> compares object references; the found task is the first
  entry with that id, and no earlier entry can be equal to it as a value, so the first
  value-equal index is the same index. The position is an integer: the drop handler
  passes an index of the column's children or \<open>-1\<close>. The function has no assignment to
  the task's \<^verbatim>\<open>status\<close>.
\<close>

definition moveTaskToPosition :: "task list \<Rightarrow> jsstring \<Rightarrow> jsval \<Rightarrow> int \<Rightarrow> task list" where
  "moveTaskToPosition tasks taskId st position =
     (case List.find (\<lambda>t. task_id t = taskId) tasks of
        None \<Rightarrow> tasks
      | Some t \<Rightarrow>
          (let taskIndex = indexOf t tasks;
               tasks1 = splice taskIndex 1 [] tasks;
               statusTasks = filter (\<lambda>t. status t = st) tasks1;
               otherTasks = filter (\<lambda>t. status t \<noteq> st) tasks1;
               statusTasks2 =
                 (if 0 \<le> position \<and> position \<le> int (length statusTasks)
                  then splice position 0 [t] statusTasks
                  else statusTasks @ [t])
           in otherTasks @ statusTasks2))"

definition deleteTask :: "task list \<Rightarrow> jsstring \<Rightarrow> task list" where
  "deleteTask tasks taskId =
     (let taskIndex = findIndex (\<lambda>t. task_id t = taskId) tasks
      in if taskIndex = - 1 then tasks else splice taskIndex 1 [] tasks)"

definition getTasksByStatus :: "task list \<Rightarrow> jsval \<Rightarrow> task list" where
  "getTasksByStatus tasks st = filter (\<lambda>t. status t = st) tasks"

text \<open>
  The three status values the store counts in \<^verbatim>\<open>updateTaskCounts\<close> and names in the
  documentation of \<^verbatim>\<open>updateTaskStatus\<close>.
\<close>

definition validStatus :: "jsval \<Rightarrow> bool" where
  "validStatus s \<longleftrightarrow> s = Str (lit ''todo'') \<or> s = Str (lit ''inprogress'') \<or> s = Str (lit ''done'')"

text \<open>
  The index at which \<open>moveTaskToPosition\<close> puts the task into a status group of \<open>n\<close>
  other tasks: the position when it is in \<open>[0, n]\<close>, else the end.
\<close>

definition clampPosition :: "int \<Rightarrow> nat \<Rightarrow> nat" where
  "clampPosition position n = (if 0 \<le> position \<and> position \<le> int n then nat position else n)"

subsection \<open>Sequences of store operations\<close>

datatype op =
    Create jsstring jsstring jsstring jsstring jsstring
  | UpdateStatus jsstring jsval jsstring
  | MoveToPosition jsstring jsval int
  | Delete jsstring

text \<open>One call on the store: the error it throws, if any, and the task list afterwards.\<close>

fun apply_op :: "task list \<Rightarrow> op \<Rightarrow> error option \<times> task list" where
  "apply_op tasks (Create ttl descr newId now1 now2) =
     (case createTask tasks ttl descr newId now1 now2 of
        (Inl e, tasks2) \<Rightarrow> (Some e, tasks2)
      | (Inr t, tasks2) \<Rightarrow> (None, tasks2))"
| "apply_op tasks (UpdateStatus taskId newStatus now) =
     (None, updateTaskStatus tasks taskId newStatus now)"
| "apply_op tasks (MoveToPosition taskId st position) =
     (None, moveTaskToPosition tasks taskId st position)"
| "apply_op tasks (Delete taskId) = (None, deleteTask tasks taskId)"

fun apply_ops :: "task list \<Rightarrow> op list \<Rightarrow> task list" where
  "apply_ops tasks [] = tasks"
| "apply_ops tasks (x # xs) = apply_ops (snd (apply_op tasks x)) xs"

fun statusArgValid :: "op \<Rightarrow> bool" where
  "statusArgValid (UpdateStatus taskId newStatus now) = validStatus newStatus"
| "statusArgValid _ = True"

section \<open>Form submission (EventHandlers)\<close>

datatype field = TitleInput | DescriptionInput

datatype form_outcome = ShowFieldError field jsstring | ShowSuccess task

definition handleFormSubmission ::
  "task list \<Rightarrow> jsstring \<Rightarrow> jsstring \<Rightarrow> jsstring \<Rightarrow> jsstring \<Rightarrow> jsstring
     \<Rightarrow> form_outcome \<times> task list" where
  "handleFormSubmission tasks titleValue descriptionValue newId now1 now2 =
     (let ttl = trim titleValue; descr = trim descriptionValue
      in if ttl = [] then (ShowFieldError TitleInput (lit ''Task title is required''), tasks)
         else if length ttl > 100
         then (ShowFieldError TitleInput (lit ''Task title must be 100 characters or less''), tasks)
         else if length descr > 500
         then (ShowFieldError DescriptionInput (lit ''Description must be 500 characters or less''),
               tasks)
         else
           (case createTask tasks ttl descr newId now1 now2 of
              (Inr t, tasks2) \<Rightarrow> (ShowSuccess t, tasks2)
            | (Inl (Error msg), tasks2) \<Rightarrow>
                (ShowFieldError TitleInput (if msg = [] then lit ''Failed to create task'' else msg),
                 tasks2)))"

section \<open>Drag and drop (DragDrop)\<close>

text \<open>
  A column's \<^verbatim>\<open>.column-content\<close> element holds, in DOM order, task cards, the
  placeholder of the running drag, and other elements (the empty-state message); the
  cards are its children, where \<^verbatim>\<open>renderTask\<close> appends them. A card carries the class
  \<^verbatim>\<open>dragging\<close> or not.

  Of a card's bounding rectangle the code uses one number, the double that its own
  arithmetic gives for \<^verbatim>\<open>rect.top + rect.height / 2\<close>. The sum of two doubles is
  rounded, so the model does not redo it on exact numbers: \<open>cardMiddle\<close> is that
  double, as the code has computed it, and the card's datum. The numbers of a layout are
  finite, so each is a real number, and \<^verbatim>\<open>mouseY > cardMiddle\<close> on doubles is the
  order of these reals; \<open>mouseY\<close> is the event's \<^verbatim>\<open>clientY\<close>.
\<close>

record card =
  cardTaskId :: jsstring
  dragging :: bool
  cardMiddle :: real

datatype node = TaskCard card | PlaceholderNode | OtherNode

record column =
  dataStatus :: jsval
  columnContent :: "node list option"

text \<open>
  \<^verbatim>\<open>this.placeholder\<close> is \<^verbatim>\<open>null\<close> or an element that has a parent node or not;
  \<^verbatim>\<open>this.draggedElement\<close> is \<^verbatim>\<open>null\<close> or the card being dragged.
\<close>

datatype elem = Elem (parentNode: bool)

record dragdrop =
  draggedElement :: "card option"
  placeholder :: "elem option"

text \<open>\<^verbatim>\<open>querySelectorAll('.task-card:not(.dragging)')\<close>, in DOM order.\<close>

fun taskCards :: "node list \<Rightarrow> card list" where
  "taskCards [] = []"
| "taskCards (TaskCard c # ns) = (if dragging c then taskCards ns else c # taskCards ns)"
| "taskCards (n # ns) = taskCards ns"

text \<open>
  The loop of \<^verbatim>\<open>handleInsertionPoint\<close>; \<open>insertAfter\<close> is \<^verbatim>\<open>null\<close> or one of the
  cards, named by its index \<open>i\<close> in \<open>taskCards\<close>.
\<close>

fun insertAfterLoop :: "real \<Rightarrow> card list \<Rightarrow> nat \<Rightarrow> nat option \<Rightarrow> nat option" where
  "insertAfterLoop mouseY [] i insertAfter = insertAfter"
| "insertAfterLoop mouseY (c # cs) i insertAfter =
     (if mouseY > cardMiddle c then insertAfterLoop mouseY cs (i + 1) (Some i)
      else insertAfter)"

text \<open>
  \<^verbatim>\<open>insertAfter.insertAdjacentElement('afterend', placeholder)\<close> for the card that is
  the \<open>i\<close>-th of \<open>taskCards\<close>.
\<close>

fun insertAfterCard :: "nat \<Rightarrow> node list \<Rightarrow> node list" where
  "insertAfterCard i [] = []"
| "insertAfterCard i (TaskCard c # ns) =
     (if dragging c then TaskCard c # insertAfterCard i ns
      else if i = 0 then TaskCard c # PlaceholderNode # ns
      else TaskCard c # insertAfterCard (i - 1) ns)"
| "insertAfterCard i (n # ns) = n # insertAfterCard i ns"

definition updatePlaceholderPosition ::
  "dragdrop \<Rightarrow> node list \<Rightarrow> nat option \<Rightarrow> dragdrop \<times> node list" where
  "updatePlaceholderPosition dd children insertAfter =
     (case placeholder dd of
        None \<Rightarrow> (dd, children)
      | Some p \<Rightarrow>
          (let children1 =
                 (if parentNode p then filter (\<lambda>n. n \<noteq> PlaceholderNode) children else children);
               children2 =
                 (case insertAfter of
                    Some i \<Rightarrow> insertAfterCard i children1
                  | None \<Rightarrow> PlaceholderNode # children1)
           in (dd\<lparr> placeholder := Some (Elem True) \<rparr>, children2)))"

definition handleInsertionPoint :: "dragdrop \<Rightarrow> real \<Rightarrow> column \<Rightarrow> dragdrop \<times> column" where
  "handleInsertionPoint dd mouseY col =
     (case columnContent col of
        None \<Rightarrow> (dd, col)
      | Some children \<Rightarrow>
          (let cards = taskCards children;
               insertAfter = insertAfterLoop mouseY cards 0 None;
               (dd2, children2) = updatePlaceholderPosition dd children insertAfter
           in (dd2, col\<lparr> columnContent := Some children2 \<rparr>)))"

text \<open>
  The insertion point a column shows: how many of the non-dragged cards stand before
  the placeholder.
\<close>

definition cardsBeforePlaceholder :: "node list \<Rightarrow> nat" where
  "cardsBeforePlaceholder children =
     length (taskCards (takeWhile (\<lambda>n. n \<noteq> PlaceholderNode) children))"

text \<open>
  Following the words of the specification: the number of sibling cards whose midpoint
  lies strictly above the pointer.
\<close>

definition midpointsAbove :: "real \<Rightarrow> card list \<Rightarrow> nat" where
  "midpointsAbove mouseY cards = length (filter (\<lambda>c. cardMiddle c < mouseY) cards)"

definition getInsertionIndex :: "dragdrop \<Rightarrow> column \<Rightarrow> type_error + int" where
  "getInsertionIndex dd col =
     (case placeholder dd of
        None \<Rightarrow> Inr (- 1)
      | Some p \<Rightarrow>
          if \<not> parentNode p then Inr (- 1)
          else (case columnContent col of
                  None \<Rightarrow> Inl TypeError
                | Some children \<Rightarrow> Inr (indexOf PlaceholderNode children)))"

definition cleanupDragState :: "dragdrop \<Rightarrow> dragdrop" where
  "cleanupDragState dd = dd\<lparr> draggedElement := None, placeholder := None \<rparr>"

text \<open>
  A drop event: the column \<^verbatim>\<open>e.target.closest('.column')\<close> finds, if any, and the
  string \<^verbatim>\<open>e.dataTransfer.getData('text/plain')\<close>. The task manager is the one the
  constructor received. The result is the error that escapes the handler, if any, the
  task list and the drag state afterwards.
\<close>

record dropEvent =
  closestColumn :: "column option"
  transferData :: jsstring

definition handleDrop ::
  "dragdrop \<Rightarrow> task list \<Rightarrow> dropEvent \<Rightarrow> jsstring
     \<Rightarrow> type_error option \<times> task list \<times> dragdrop" where
  "handleDrop dd tasks e now =
     (case draggedElement dd of
        None \<Rightarrow> (None, tasks, dd)
      | Some el \<Rightarrow>
          (case closestColumn e of
             None \<Rightarrow> (None, tasks, dd)
           | Some col \<Rightarrow>
               (let newStatus = dataStatus col;
                    taskId = transferData e;
                    tasks1 = updateTaskStatus tasks taskId newStatus now
                in case getInsertionIndex dd col of
                     Inl err \<Rightarrow> (Some err, tasks1, dd)
                   | Inr insertionIndex \<Rightarrow>
                       (None, moveTaskToPosition tasks1 taskId newStatus insertionIndex,
                        cleanupDragState dd))))"

definition handleDragEnd :: "dragdrop \<Rightarrow> dragdrop" where
  "handleDragEnd dd = cleanupDragState dd"

section \<open>Example data\<close>

definition exampleTask :: "string \<Rightarrow> string \<Rightarrow> task" where
  "exampleTask i s =
     \<lparr> task_id = lit i, title = lit i, description = [], status = Str (lit s),
       createdAt = [], updatedAt = [] \<rparr>"

definition exampleCard :: "real \<Rightarrow> card" where
  "exampleCard m = \<lparr> cardTaskId = [], dragging = False, cardMiddle = m \<rparr>"

definition exampleDrag :: dragdrop where
  "exampleDrag =
     \<lparr> draggedElement = Some ((exampleCard 100)\<lparr> dragging := True \<rparr>),
       placeholder = Some (Elem True) \<rparr>"

definition exampleColumn :: "jsval \<Rightarrow> column" where
  "exampleColumn s =
     \<lparr> dataStatus = s, columnContent = Some [PlaceholderNode, TaskCard (exampleCard 200)] \<rparr>"

lemmas example_simps = exampleTask_def lit_def

lemmas store_eval = moveTaskToPosition_def updateTaskStatus_def deleteTask_def getTasksByStatus_def
  createTask_def indexOf_def splice_def clampPosition_def Let_def exampleTask_def lit_def

section \<open>Lists, search and splice\<close>

lemma findIndex_ge: "- 1 \<le> findIndex P xs"
  by (induction xs) (auto simp: Let_def)

lemma findIndex_none_iff: "findIndex P xs = - 1 \<longleftrightarrow> (\<forall>x\<in>set xs. \<not> P x)"
proof (induction xs)
  case Nil
  show ?case by simp
next
  case (Cons x xs)
  have "- 1 \<le> findIndex P xs" by (rule findIndex_ge)
  with Cons show ?case by (auto simp: Let_def)
qed

lemma findIndex_prefix:
  "\<forall>a\<in>set as. \<not> P a \<Longrightarrow> P x \<Longrightarrow> findIndex P (as @ x # bs) = int (length as)"
  by (induction as) (auto simp: Let_def)

lemma find_none_iff: "List.find P xs = None \<longleftrightarrow> (\<forall>x\<in>set xs. \<not> P x)"
  by (induction xs) auto

lemma find_prefix:
  "\<forall>a\<in>set as. \<not> P a \<Longrightarrow> P x \<Longrightarrow> List.find P (as @ x # bs) = Some x"
  by (induction as) auto

lemma find_split:
  "List.find P xs = Some x \<Longrightarrow> \<exists>as bs. xs = as @ x # bs \<and> (\<forall>a\<in>set as. \<not> P a) \<and> P x"
proof (induction xs)
  case Nil
  then show ?case by simp
next
  case (Cons y ys)
  show ?case
  proof (cases "P y")
    case True
    with Cons.prems have "y = x" by simp
    with True have "y # ys = [] @ x # ys \<and> (\<forall>a\<in>set []. \<not> P a) \<and> P x" by simp
    then show ?thesis by blast
  next
    case False
    with Cons.prems have "List.find P ys = Some x" by simp
    from Cons.IH[OF this] obtain as bs where
      "ys = as @ x # bs" "\<forall>a\<in>set as. \<not> P a" "P x" by blast
    with False have "y # ys = (y # as) @ x # bs \<and> (\<forall>a\<in>set (y # as). \<not> P a) \<and> P x" by simp
    then show ?thesis by blast
  qed
qed

lemma splice_remove: "splice (int (length as)) (Suc 0) [] (as @ x # bs) = as @ bs"
  by (simp add: splice_def Let_def)

lemma splice_insert:
  "0 \<le> p \<Longrightarrow> p \<le> int (length xs) \<Longrightarrow> splice p 0 [t] xs = take (nat p) xs @ t # drop (nat p) xs"
  by (simp add: splice_def Let_def min_def)

lemma moveTaskToPosition_split:
  assumes "\<forall>a\<in>set as. task_id a \<noteq> taskId" and "task_id t = taskId"
  shows "moveTaskToPosition (as @ t # bs) taskId st position =
           filter (\<lambda>t. status t \<noteq> st) (as @ bs) @
           take (clampPosition position (length (filter (\<lambda>t. status t = st) (as @ bs))))
             (filter (\<lambda>t. status t = st) (as @ bs)) @
           t # drop (clampPosition position (length (filter (\<lambda>t. status t = st) (as @ bs))))
             (filter (\<lambda>t. status t = st) (as @ bs))"
proof -
  have f: "List.find (\<lambda>t. task_id t = taskId) (as @ t # bs) = Some t"
    using assms by (simp add: find_prefix)
  have "\<forall>a\<in>set as. a \<noteq> t" using assms by auto
  then have i: "indexOf t (as @ t # bs) = int (length as)"
    unfolding indexOf_def by (simp add: findIndex_prefix)
  show ?thesis
    by (simp add: moveTaskToPosition_def f i Let_def splice_remove splice_insert
        clampPosition_def del: filter_append)
qed

lemma deleteTask_split:
  assumes "\<forall>a\<in>set as. task_id a \<noteq> taskId" and "task_id t = taskId"
  shows "deleteTask (as @ t # bs) taskId = as @ bs"
  using assms by (simp add: deleteTask_def Let_def findIndex_prefix splice_remove)

lemma updateTaskStatus_split:
  assumes "\<forall>a\<in>set as. task_id a \<noteq> taskId" and "task_id t = taskId"
  shows "updateTaskStatus (as @ t # bs) taskId newStatus now =
           as @ t\<lparr> status := newStatus, updatedAt := now \<rparr> # bs"
  using assms by (simp add: updateTaskStatus_def find_prefix findIndex_prefix)

lemma moveTaskToPosition_mset: "mset (moveTaskToPosition tasks taskId st position) = mset tasks"
proof (cases "List.find (\<lambda>t. task_id t = taskId) tasks")
  case None
  then show ?thesis by (simp add: moveTaskToPosition_def)
next
  case (Some t)
  from find_split[OF Some] obtain as bs where
    s: "tasks = as @ t # bs" "\<forall>a\<in>set as. task_id a \<noteq> taskId" "task_id t = taskId" by blast
  let ?sts = "filter (\<lambda>t. status t = st) (as @ bs)"
  let ?c = "clampPosition position (length ?sts)"
  have "mset (take ?c ?sts @ t # drop ?c ?sts) = mset ?sts + {#t#}"
    by (metis append_take_drop_id mset.simps(2) mset_append union_mset_add_mset_right add_mset_add_single)
  moreover have "mset (filter (\<lambda>t. status t \<noteq> st) (as @ bs)) + mset ?sts = mset (as @ bs)"
    by (metis add.commute mset_filter multiset_partition)
  ultimately show ?thesis
    unfolding s(1) moveTaskToPosition_split[OF s(2,3)]
    by (simp del: filter_append)
qed

lemma set_moveTaskToPosition: "set (moveTaskToPosition tasks taskId st position) = set tasks"
  using moveTaskToPosition_mset[of tasks taskId st position] by (rule mset_eq_setD)

lemma set_deleteTask: "set (deleteTask tasks taskId) \<subseteq> set tasks"
proof (cases "List.find (\<lambda>t. task_id t = taskId) tasks")
  case None
  then have "findIndex (\<lambda>t. task_id t = taskId) tasks = - 1"
    by (simp add: find_none_iff findIndex_none_iff)
  then show ?thesis by (simp add: deleteTask_def)
next
  case (Some t)
  from find_split[OF Some] obtain as bs where
    s: "tasks = as @ t # bs" "\<forall>a\<in>set as. task_id a \<noteq> taskId" "task_id t = taskId" by blast
  show ?thesis unfolding s(1) deleteTask_split[OF s(2,3)] by auto
qed

lemma filter_take_drop: "filter P (take n xs) @ filter P (drop n xs) = filter P xs"
  by (metis append_take_drop_id filter_append)

lemma updateTaskStatus_valid:
  assumes "list_all (\<lambda>t. validStatus (status t)) tasks" and "validStatus newStatus"
  shows "list_all (\<lambda>t. validStatus (status t)) (updateTaskStatus tasks taskId newStatus now)"
proof (cases "List.find (\<lambda>t. task_id t = taskId) tasks")
  case None
  then show ?thesis using assms(1) by (simp add: updateTaskStatus_def)
next
  case (Some t)
  from find_split[OF Some] obtain as bs where
    s: "tasks = as @ t # bs" "\<forall>a\<in>set as. task_id a \<noteq> taskId" "task_id t = taskId" by blast
  show ?thesis
    using assms unfolding s(1) updateTaskStatus_split[OF s(2,3)] by simp
qed

lemma apply_op_valid:
  assumes "list_all (\<lambda>t. validStatus (status t)) tasks" and "statusArgValid x"
  shows "list_all (\<lambda>t. validStatus (status t)) (snd (apply_op tasks x))"
proof (cases x)
  case (Create ttl descr newId now1 now2)
  then show ?thesis using assms(1)
    by (simp add: createTask_def Let_def validStatus_def)
next
  case (UpdateStatus taskId newStatus now)
  then show ?thesis using assms by (simp add: updateTaskStatus_valid)
next
  case (MoveToPosition taskId st position)
  then show ?thesis using assms(1)
    by (simp add: list_all_iff set_moveTaskToPosition)
next
  case (Delete taskId)
  then show ?thesis using assms(1) set_deleteTask[of tasks taskId]
    by (auto simp: list_all_iff)
qed

lemma drop_flow_example:
  "map task_id
       (getTasksByStatus
          (moveTaskToPosition
             (updateTaskStatus
                [exampleTask ''A'' ''todo'', exampleTask ''B'' ''todo'', exampleTask ''C'' ''inprogress'']
                (lit ''A'') (Str (lit ''inprogress'')) now)
             (lit ''A'') (Str (lit ''inprogress'')) 0)
          (Str (lit ''inprogress'')))
     = [lit ''A'', lit ''C'']
   \<and> map task_id
       (getTasksByStatus
          (moveTaskToPosition
             (updateTaskStatus
                [exampleTask ''A'' ''todo'', exampleTask ''B'' ''todo'', exampleTask ''C'' ''inprogress'']
                (lit ''A'') (Str (lit ''inprogress'')) now)
             (lit ''A'') (Str (lit ''inprogress'')) 0)
          (Str (lit ''todo'')))
     = [lit ''B'']"
  by (simp add: store_eval)

section \<open>Properties of the task store\<close>

text \<open>
  Claim C1, as the code has it. \<open>moveTaskToPosition\<close> does not write the task's status:
  the tasks of the list are the same records afterwards. When the task found for the id
  already has the target status (the drop handler calls \<open>updateTaskStatus\<close> first),
  the view \<open>getTasksByStatus\<close> of that status is the view of the other tasks with the
  moved task inserted at the clamped position, so the task is at that index.
\<close>

theorem moveTaskToPosition_places_task:
  assumes "List.find (\<lambda>t. task_id t = taskId) tasks = Some t" and "status t = st"
  shows "getTasksByStatus (moveTaskToPosition tasks taskId st position) st =
           take (clampPosition position (length (getTasksByStatus (deleteTask tasks taskId) st)))
             (getTasksByStatus (deleteTask tasks taskId) st) @
           t # drop (clampPosition position (length (getTasksByStatus (deleteTask tasks taskId) st)))
             (getTasksByStatus (deleteTask tasks taskId) st)
       \<and> clampPosition position (length (getTasksByStatus (deleteTask tasks taskId) st))
           < length (getTasksByStatus (moveTaskToPosition tasks taskId st position) st)
       \<and> getTasksByStatus (moveTaskToPosition tasks taskId st position) st
           ! clampPosition position (length (getTasksByStatus (deleteTask tasks taskId) st)) = t
       \<and> mset (moveTaskToPosition tasks taskId st position) = mset tasks"
proof -
  from find_split[OF assms(1)] obtain as bs where
    s: "tasks = as @ t # bs" "\<forall>a\<in>set as. task_id a \<noteq> taskId" "task_id t = taskId" by blast
  define sts where "sts = filter (\<lambda>t. status t = st) (as @ bs)"
  define c where "c = clampPosition position (length sts)"
  have d: "getTasksByStatus (deleteTask tasks taskId) st = sts"
    unfolding s(1) deleteTask_split[OF s(2,3)] getTasksByStatus_def sts_def ..
  have c: "c \<le> length sts" unfolding c_def clampPosition_def by auto
  define others where "others = filter (\<lambda>t. status t \<noteq> st) (as @ bs)"
  define ins where "ins = take c sts @ t # drop c sts"
  have r: "moveTaskToPosition tasks taskId st position = others @ ins"
    unfolding s(1) moveTaskToPosition_split[OF s(2,3)] others_def ins_def c_def sts_def by simp
  have fo: "filter (\<lambda>t. status t = st) others = []"
    unfolding others_def by simp
  have "\<forall>x\<in>set sts. status x = st" unfolding sts_def by auto
  then have "\<forall>x\<in>set ins. status x = st"
    using assms(2) unfolding ins_def by (auto dest: in_set_takeD in_set_dropD)
  then have fs: "filter (\<lambda>t. status t = st) ins = ins"
    by (simp add: filter_id_conv)
  have m: "getTasksByStatus (moveTaskToPosition tasks taskId st position) st = take c sts @ t # drop c sts"
    unfolding r getTasksByStatus_def filter_append fo fs by (simp add: ins_def)
  have n: "(take c sts @ t # drop c sts) ! c = t"
    using c by (simp add: nth_append)
  have l: "c < length (take c sts @ t # drop c sts)" using c by simp
  show ?thesis
    unfolding d m using n l moveTaskToPosition_mset unfolding c_def by simp
qed

theorem moveTaskToPosition_places_task_witness:
  "List.find (\<lambda>t. task_id t = lit ''c'')
     [exampleTask ''a'' ''todo'', exampleTask ''b'' ''done'', exampleTask ''c'' ''done'']
     = Some (exampleTask ''c'' ''done'')
   \<and> status (exampleTask ''c'' ''done'') = Str (lit ''done'')
   \<and> getTasksByStatus
        (moveTaskToPosition
           [exampleTask ''a'' ''todo'', exampleTask ''b'' ''done'', exampleTask ''c'' ''done'']
           (lit ''c'') (Str (lit ''done'')) 0) (Str (lit ''done''))
        ! 0 = exampleTask ''c'' ''done''"
proof -
  let ?tasks = "[exampleTask ''a'' ''todo'', exampleTask ''b'' ''done'', exampleTask ''c'' ''done'']"
  have h1: "List.find (\<lambda>t. task_id t = lit ''c'') ?tasks = Some (exampleTask ''c'' ''done'')"
    by (simp add: exampleTask_def lit_def)
  have h2: "status (exampleTask ''c'' ''done'') = Str (lit ''done'')"
    by (simp add: exampleTask_def)
  have c: "clampPosition 0 (length (getTasksByStatus (deleteTask ?tasks (lit ''c'')) (Str (lit ''done'')))) = 0"
    by (simp add: clampPosition_def)
  show ?thesis
    using h1 h2 moveTaskToPosition_places_task [OF h1 h2, of 0] unfolding c by simp
qed

text \<open>
  Claim C1 as stated fails: moving the only task, of status \<open>todo\<close>, to \<open>done\<close> at
  position 0 leaves its status \<open>todo\<close>, and the \<open>done\<close> view stays empty.
\<close>

theorem moveTaskToPosition_keeps_status_counterexample:
  "getTasksByStatus
     (moveTaskToPosition [exampleTask ''a'' ''todo''] (lit ''a'') (Str (lit ''done'')) 0)
     (Str (lit ''done'')) = []
   \<and> map status (moveTaskToPosition [exampleTask ''a'' ''todo''] (lit ''a'') (Str (lit ''done'')) 0)
       = [Str (lit ''todo'')]"
  by (simp add: store_eval)

text \<open>
  Claim C2, as the code has it. The rebuilt list is the other tasks followed by the tasks
  of the target status, each group in its old order. So for two tasks other than the moved
  one, the list restricted to them is first those not of the target status, then those of
  it; their order is the old one when both have the target status or both do not. In the
  example, with \<open>updateTaskStatus\<close> called first as the drop handler does, the
  \<open>inprogress\<close> view is A, C and the \<open>todo\<close> view is B.
\<close>

theorem moveTaskToPosition_stable_partition:
  assumes "taskId \<in> task_id ` set tasks" and "a \<noteq> taskId" and "b \<noteq> taskId"
  shows "filter (\<lambda>t. task_id t = a \<or> task_id t = b) (moveTaskToPosition tasks taskId st position) =
           filter (\<lambda>t. (task_id t = a \<or> task_id t = b) \<and> status t \<noteq> st) tasks @
           filter (\<lambda>t. (task_id t = a \<or> task_id t = b) \<and> status t = st) tasks
       \<and> ((\<forall>t\<in>set tasks. task_id t = a \<or> task_id t = b \<longrightarrow> status t = st) \<or>
          (\<forall>t\<in>set tasks. task_id t = a \<or> task_id t = b \<longrightarrow> status t \<noteq> st) \<longrightarrow>
          filter (\<lambda>t. task_id t = a \<or> task_id t = b) (moveTaskToPosition tasks taskId st position) =
            filter (\<lambda>t. task_id t = a \<or> task_id t = b) tasks)
       \<and> map task_id
       (getTasksByStatus
          (moveTaskToPosition
             (updateTaskStatus
                [exampleTask ''A'' ''todo'', exampleTask ''B'' ''todo'', exampleTask ''C'' ''inprogress'']
                (lit ''A'') (Str (lit ''inprogress'')) now)
             (lit ''A'') (Str (lit ''inprogress'')) 0)
          (Str (lit ''inprogress'')))
     = [lit ''A'', lit ''C'']
       \<and> map task_id
       (getTasksByStatus
          (moveTaskToPosition
             (updateTaskStatus
                [exampleTask ''A'' ''todo'', exampleTask ''B'' ''todo'', exampleTask ''C'' ''inprogress'']
                (lit ''A'') (Str (lit ''inprogress'')) now)
             (lit ''A'') (Str (lit ''inprogress'')) 0)
          (Str (lit ''todo'')))
     = [lit ''B'']"
proof -
  define P where "P = (\<lambda>t :: task. task_id t = a \<or> task_id t = b)"
  from assms(1) have "List.find (\<lambda>t. task_id t = taskId) tasks \<noteq> None"
    by (auto simp: find_none_iff)
  then obtain t where "List.find (\<lambda>t. task_id t = taskId) tasks = Some t" by blast
  from find_split[OF this] obtain as bs where
    s: "tasks = as @ t # bs" "\<forall>a\<in>set as. task_id a \<noteq> taskId" "task_id t = taskId" by blast
  have nt: "\<not> P t" using assms(2,3) s(3) unfolding P_def by auto
  define sts where "sts = filter (\<lambda>t. status t = st) (as @ bs)"
  define others where "others = filter (\<lambda>t. status t \<noteq> st) (as @ bs)"
  define c where "c = clampPosition position (length sts)"
  have r: "moveTaskToPosition tasks taskId st position = others @ take c sts @ t # drop c sts"
    unfolding s(1) moveTaskToPosition_split[OF s(2,3)] sts_def others_def c_def by simp
  have "filter P (others @ take c sts @ t # drop c sts) =
          filter P others @ (filter P (take c sts) @ filter P (drop c sts))"
    using nt by simp
  also have "\<dots> = filter P others @ filter P sts"
    unfolding filter_take_drop ..
  finally have m: "filter P (moveTaskToPosition tasks taskId st position) =
      filter P others @ filter P sts"
    unfolding r .
  have o: "filter P others = filter (\<lambda>t. P t \<and> status t \<noteq> st) tasks"
    unfolding others_def s(1) using nt by (simp add: conj_commute)
  have q: "filter P sts = filter (\<lambda>t. P t \<and> status t = st) tasks"
    unfolding sts_def s(1) using nt by (simp add: conj_commute)
  have main: "filter P (moveTaskToPosition tasks taskId st position) =
      filter (\<lambda>t. P t \<and> status t \<noteq> st) tasks @ filter (\<lambda>t. P t \<and> status t = st) tasks"
    unfolding m o q ..
  have same: "filter P (moveTaskToPosition tasks taskId st position) = filter P tasks"
    if h: "(\<forall>t\<in>set tasks. P t \<longrightarrow> status t = st) \<or> (\<forall>t\<in>set tasks. P t \<longrightarrow> status t \<noteq> st)"
  proof -
    from h show ?thesis
    proof
      assume all: "\<forall>t\<in>set tasks. P t \<longrightarrow> status t = st"
      then have "filter (\<lambda>t. P t \<and> status t \<noteq> st) tasks = []"
        by (auto simp: filter_empty_conv)
      moreover from all have "filter (\<lambda>t. P t \<and> status t = st) tasks = filter P tasks"
        by (auto intro: filter_cong)
      ultimately show ?thesis unfolding main by simp
    next
      assume all: "\<forall>t\<in>set tasks. P t \<longrightarrow> status t \<noteq> st"
      then have "filter (\<lambda>t. P t \<and> status t = st) tasks = []"
        by (auto simp: filter_empty_conv)
      moreover from all have "filter (\<lambda>t. P t \<and> status t \<noteq> st) tasks = filter P tasks"
        by (auto intro: filter_cong)
      ultimately show ?thesis unfolding main by simp
    qed
  qed
  note ex = drop_flow_example [of now]
  show ?thesis
    using main same ex unfolding P_def by blast
qed

theorem moveTaskToPosition_stable_partition_witness:
  "lit ''A'' \<in> task_id ` set [exampleTask ''A'' ''todo'', exampleTask ''B'' ''todo'',
                              exampleTask ''C'' ''inprogress'', exampleTask ''D'' ''todo'']
   \<and> lit ''B'' \<noteq> lit ''A'' \<and> lit ''D'' \<noteq> lit ''A''
   \<and> list_all
        (\<lambda>t. task_id t = lit ''B'' \<or> task_id t = lit ''D'' \<longrightarrow> status t \<noteq> Str (lit ''inprogress''))
        [exampleTask ''A'' ''todo'', exampleTask ''B'' ''todo'',
         exampleTask ''C'' ''inprogress'', exampleTask ''D'' ''todo'']
   \<and> filter (\<lambda>t. task_id t = lit ''B'' \<or> task_id t = lit ''D'')
        (moveTaskToPosition
           [exampleTask ''A'' ''todo'', exampleTask ''B'' ''todo'',
            exampleTask ''C'' ''inprogress'', exampleTask ''D'' ''todo'']
           (lit ''A'') (Str (lit ''inprogress'')) 0)
       = [exampleTask ''B'' ''todo'', exampleTask ''D'' ''todo'']"
proof -
  let ?tasks = "[exampleTask ''A'' ''todo'', exampleTask ''B'' ''todo'',
                 exampleTask ''C'' ''inprogress'', exampleTask ''D'' ''todo'']"
  have h1: "lit ''A'' \<in> task_id ` set ?tasks" by (simp add: exampleTask_def)
  have h2: "lit ''B'' \<noteq> lit ''A''" by (simp add: lit_def)
  have h3: "lit ''D'' \<noteq> lit ''A''" by (simp add: lit_def)
  have h4: "\<forall>t\<in>set ?tasks. task_id t = lit ''B'' \<or> task_id t = lit ''D'' \<longrightarrow>
              status t \<noteq> Str (lit ''inprogress'')"
    by (simp add: exampleTask_def lit_def)
  have f: "filter (\<lambda>t. task_id t = lit ''B'' \<or> task_id t = lit ''D'') ?tasks =
             [exampleTask ''B'' ''todo'', exampleTask ''D'' ''todo'']"
    by (simp add: exampleTask_def lit_def)
  from moveTaskToPosition_stable_partition [OF h1 h2 h3, of "Str (lit ''inprogress'')" 0, THEN conjunct2] h4
  have "filter (\<lambda>t. task_id t = lit ''B'' \<or> task_id t = lit ''D'')
          (moveTaskToPosition ?tasks (lit ''A'') (Str (lit ''inprogress'')) 0) =
        filter (\<lambda>t. task_id t = lit ''B'' \<or> task_id t = lit ''D'') ?tasks"
    by blast
  then have r: "filter (\<lambda>t. task_id t = lit ''B'' \<or> task_id t = lit ''D'')
          (moveTaskToPosition ?tasks (lit ''A'') (Str (lit ''inprogress'')) 0) =
        [exampleTask ''B'' ''todo'', exampleTask ''D'' ''todo'']"
    unfolding f .
  have h4l: "list_all
        (\<lambda>t. task_id t = lit ''B'' \<or> task_id t = lit ''D'' \<longrightarrow> status t \<noteq> Str (lit ''inprogress''))
        ?tasks"
    using h4 unfolding list_all_iff .
  show ?thesis
    by (intro conjI) (rule h1, rule h2, rule h3, rule h4l, rule r)
qed

text \<open>
  Claim C2 as stated fails: from X (todo), Y (done), M (todo), moving M to \<open>todo\<close> at
  position 0 gives Y, M, X, so X and Y have changed places. And \<open>moveTaskToPosition\<close>
  alone on the example leaves A with status \<open>todo\<close>: the \<open>inprogress\<close> view is C and
  the \<open>todo\<close> view is B, A.
\<close>

theorem moveTaskToPosition_reorders_counterexample:
  "map task_id [exampleTask ''X'' ''todo'', exampleTask ''Y'' ''done'', exampleTask ''M'' ''todo'']
     = [lit ''X'', lit ''Y'', lit ''M'']
   \<and> map task_id
       (moveTaskToPosition
          [exampleTask ''X'' ''todo'', exampleTask ''Y'' ''done'', exampleTask ''M'' ''todo'']
          (lit ''M'') (Str (lit ''todo'')) 0)
     = [lit ''Y'', lit ''M'', lit ''X'']
   \<and> map task_id
       (getTasksByStatus
          (moveTaskToPosition
             [exampleTask ''A'' ''todo'', exampleTask ''B'' ''todo'', exampleTask ''C'' ''inprogress'']
             (lit ''A'') (Str (lit ''inprogress'')) 0)
          (Str (lit ''inprogress'')))
     = [lit ''C'']
   \<and> map task_id
       (getTasksByStatus
          (moveTaskToPosition
             [exampleTask ''A'' ''todo'', exampleTask ''B'' ''todo'', exampleTask ''C'' ''inprogress'']
             (lit ''A'') (Str (lit ''inprogress'')) 0)
          (Str (lit ''todo'')))
     = [lit ''B'', lit ''A'']"
  by (simp add: store_eval)

text \<open>
  Claim C5, as the code has it. \<open>updateTaskStatus\<close> stores whatever status it is given.
  When every task of the starting list has one of the three status values of the code
  (\<open>todo\<close>, \<open>inprogress\<close>, \<open>done\<close>) and every \<open>updateTaskStatus\<close> call of the
  sequence is given one of them, every task has one of them after the sequence.
\<close>

theorem status_invariant_preserved:
  assumes "list_all (\<lambda>t. validStatus (status t)) tasks" and "list_all statusArgValid ops"
  shows "list_all (\<lambda>t. validStatus (status t)) (apply_ops tasks ops)"
  using assms
proof (induction ops arbitrary: tasks)
  case Nil
  then show ?case by simp
next
  case (Cons x xs)
  from Cons.prems have "list_all (\<lambda>t. validStatus (status t)) (snd (apply_op tasks x))"
    by (simp add: apply_op_valid)
  with Cons.prems Cons.IH show ?case by simp
qed

theorem status_invariant_preserved_witness:
  "list_all (\<lambda>t. validStatus (status t)) []
   \<and> list_all statusArgValid
       [Create (lit ''a'') [] (lit ''task_1'') [] [],
        Create (lit ''b'') [] (lit ''task_2'') [] [],
        UpdateStatus (lit ''task_1'') (Str (lit ''inprogress'')) [],
        MoveToPosition (lit ''task_2'') (Str (lit ''archived'')) 0,
        Delete (lit ''task_2'')]
   \<and> list_all (\<lambda>t. validStatus (status t))
       (apply_ops []
          [Create (lit ''a'') [] (lit ''task_1'') [] [],
           Create (lit ''b'') [] (lit ''task_2'') [] [],
           UpdateStatus (lit ''task_1'') (Str (lit ''inprogress'')) [],
           MoveToPosition (lit ''task_2'') (Str (lit ''archived'')) 0,
           Delete (lit ''task_2'')])"
proof -
  have h1: "list_all (\<lambda>t. validStatus (status t)) []" by simp
  have h2: "list_all statusArgValid
       [Create (lit ''a'') [] (lit ''task_1'') [] [],
        Create (lit ''b'') [] (lit ''task_2'') [] [],
        UpdateStatus (lit ''task_1'') (Str (lit ''inprogress'')) [],
        MoveToPosition (lit ''task_2'') (Str (lit ''archived'')) 0,
        Delete (lit ''task_2'')]"
    by (simp add: validStatus_def)
  show ?thesis
    by (intro conjI) (rule h1, rule h2, rule status_invariant_preserved [OF h1 h2])
qed

text \<open>
  Claim C5 as stated fails: creating a task and updating its status to \<open>archived\<close>
  leaves a task whose status is none of the enumerated values.
\<close>

theorem updateTaskStatus_unvalidated_counterexample:
  "map status
     (apply_ops []
        [Create (lit ''a'') [] (lit ''task_1'') [] [],
         UpdateStatus (lit ''task_1'') (Str (lit ''archived'')) []])
     = [Str (lit ''archived'')]
   \<and> \<not> validStatus (Str (lit ''archived''))
   \<and> Str (lit ''archived'') \<noteq> Str (lit ''in-progress'')"
  by (simp add: store_eval validStatus_def trim_def isWhiteSpace_def)

text \<open>
  Claim C6. When the title is empty after trimming, \<open>createTask\<close> throws its error and the
  task list stays as it was; otherwise it returns the new task, whose status is \<open>todo\<close>,
  and the task list is the old one with the new task appended at the end.
\<close>

theorem createTask_validates_title:
  "(trim ttl = [] \<longrightarrow>
      createTask tasks ttl descr newId now1 now2 =
        (Inl (Error (lit ''Task title is required'')), tasks))
   \<and> (trim ttl \<noteq> [] \<longrightarrow>
        (\<exists>t. createTask tasks ttl descr newId now1 now2 = (Inr t, tasks @ [t])
             \<and> status t = Str (lit ''todo'') \<and> task_id t = newId))"
  by (simp add: createTask_def Let_def)

theorem createTask_validates_title_witness:
  "trim (lit '''') = [] \<and> trim (lit ''   '') = [] \<and> trim (lit '' a '') \<noteq> []
   \<and> createTask [exampleTask ''a'' ''todo''] (lit '''') (lit ''x'') (lit ''n'') [] [] =
       (Inl (Error (lit ''Task title is required'')), [exampleTask ''a'' ''todo''])
   \<and> createTask [exampleTask ''a'' ''todo''] (lit ''   '') (lit ''x'') (lit ''n'') [] [] =
       (Inl (Error (lit ''Task title is required'')), [exampleTask ''a'' ''todo''])
   \<and> (\<exists>t. createTask [exampleTask ''a'' ''todo''] (lit '' a '') (lit ''x'') (lit ''n'') [] [] =
            (Inr t, [exampleTask ''a'' ''todo''] @ [t])
          \<and> status t = Str (lit ''todo'') \<and> task_id t = lit ''n'')"
proof -
  have e1: "trim (lit '''') = []" by (simp add: trim_def lit_def)
  have e2: "trim (lit ''   '') = []" by (simp add: trim_def lit_def isWhiteSpace_def)
  have e3: "trim (lit '' a '') \<noteq> []" by (simp add: trim_def lit_def isWhiteSpace_def)
  show ?thesis
    using e1 e2 e3
      createTask_validates_title [of "lit ''''" "[exampleTask ''a'' ''todo'']" "lit ''x''" "lit ''n''" "[]" "[]"]
      createTask_validates_title [of "lit ''   ''" "[exampleTask ''a'' ''todo'']" "lit ''x''" "lit ''n''" "[]" "[]"]
      createTask_validates_title [of "lit '' a ''" "[exampleTask ''a'' ''todo'']" "lit ''x''" "lit ''n''" "[]" "[]"]
    by blast
qed

text \<open>
  Claim C7. For an id that no task of the store has, \<open>updateTaskStatus\<close>, \<open>deleteTask\<close>
  and \<open>moveTaskToPosition\<close> throw nothing and return the task list as it was: the same
  tasks in the same order with the same field values.
\<close>

theorem unknown_id_is_noop:
  assumes "taskId \<notin> task_id ` set tasks"
  shows "apply_op tasks (UpdateStatus taskId newStatus now) = (None, tasks)
       \<and> apply_op tasks (Delete taskId) = (None, tasks)
       \<and> apply_op tasks (MoveToPosition taskId st position) = (None, tasks)"
proof -
  have n: "\<forall>t\<in>set tasks. \<not> task_id t = taskId" using assms by auto
  then have f: "List.find (\<lambda>t. task_id t = taskId) tasks = None"
    by (simp add: find_none_iff)
  from n have i: "findIndex (\<lambda>t. task_id t = taskId) tasks = - 1"
    by (simp add: findIndex_none_iff)
  show ?thesis
    by (simp add: updateTaskStatus_def deleteTask_def moveTaskToPosition_def f i)
qed

theorem unknown_id_is_noop_witness:
  "lit ''nope'' \<notin> task_id ` set [exampleTask ''a'' ''todo'', exampleTask ''b'' ''done'']
   \<and> apply_op [exampleTask ''a'' ''todo'', exampleTask ''b'' ''done'']
        (UpdateStatus (lit ''nope'') (Str (lit ''done'')) []) =
       (None, [exampleTask ''a'' ''todo'', exampleTask ''b'' ''done''])
   \<and> apply_op [exampleTask ''a'' ''todo'', exampleTask ''b'' ''done''] (Delete (lit ''nope'')) =
       (None, [exampleTask ''a'' ''todo'', exampleTask ''b'' ''done''])
   \<and> apply_op [exampleTask ''a'' ''todo'', exampleTask ''b'' ''done'']
        (MoveToPosition (lit ''nope'') (Str (lit ''done'')) 0) =
       (None, [exampleTask ''a'' ''todo'', exampleTask ''b'' ''done''])"
proof -
  have h: "lit ''nope'' \<notin> task_id ` set [exampleTask ''a'' ''todo'', exampleTask ''b'' ''done'']"
    by (simp add: example_simps)
  show ?thesis
    using h unknown_id_is_noop [OF h, of "Str (lit ''done'')" "[]" "Str (lit ''done'')" 0]
    by simp
qed

text \<open>
  Claim C8, as the code has it. For a task in the store and a position that is negative
  or greater than the number of other tasks of the target status, \<open>moveTaskToPosition\<close>
  returns the other tasks not of that status, then those of that status, then the moved
  task. The status view \<open>getTasksByStatus\<close> has the task as its last entry exactly when
  the task already has that status; otherwise the view is that of the other tasks.
\<close>

theorem moveTaskToPosition_clamps_to_end:
  assumes "List.find (\<lambda>t. task_id t = taskId) tasks = Some t"
    and "position < 0 \<or> int (length (getTasksByStatus (deleteTask tasks taskId) st)) < position"
  shows "moveTaskToPosition tasks taskId st position =
           filter (\<lambda>x. status x \<noteq> st) (deleteTask tasks taskId) @
           getTasksByStatus (deleteTask tasks taskId) st @ [t]
       \<and> getTasksByStatus (moveTaskToPosition tasks taskId st position) st =
           getTasksByStatus (deleteTask tasks taskId) st @ (if status t = st then [t] else [])"
proof -
  from find_split[OF assms(1)] obtain as bs where
    s: "tasks = as @ t # bs" "\<forall>a\<in>set as. task_id a \<noteq> taskId" "task_id t = taskId" by blast
  define sts where "sts = filter (\<lambda>t. status t = st) (as @ bs)"
  define others where "others = filter (\<lambda>t. status t \<noteq> st) (as @ bs)"
  have d: "deleteTask tasks taskId = as @ bs"
    unfolding s(1) deleteTask_split[OF s(2,3)] ..
  have c: "clampPosition position (length sts) = length sts"
    using assms(2) unfolding d getTasksByStatus_def sts_def[symmetric] clampPosition_def by auto
  have r: "moveTaskToPosition tasks taskId st position = others @ sts @ [t]"
    unfolding s(1) moveTaskToPosition_split[OF s(2,3)] sts_def[symmetric] others_def[symmetric] c
    by simp
  have fo: "filter (\<lambda>t. status t = st) others = []" unfolding others_def by simp
  have fs: "filter (\<lambda>t. status t = st) sts = sts" unfolding sts_def by simp
  have v: "getTasksByStatus (others @ sts @ [t]) st = sts @ (if status t = st then [t] else [])"
    unfolding getTasksByStatus_def filter_append fo fs by simp
  show ?thesis
    unfolding r v unfolding d getTasksByStatus_def sts_def others_def by simp
qed

theorem moveTaskToPosition_clamps_to_end_witness:
  "List.find (\<lambda>t. task_id t = lit ''t'')
     [exampleTask ''t'' ''done'', exampleTask ''x'' ''todo'', exampleTask ''d1'' ''done'',
      exampleTask ''d2'' ''done'']
     = Some (exampleTask ''t'' ''done'')
   \<and> ((999::int) < 0 \<or>
        int (length (getTasksByStatus
               (deleteTask [exampleTask ''t'' ''done'', exampleTask ''x'' ''todo'',
                            exampleTask ''d1'' ''done'', exampleTask ''d2'' ''done''] (lit ''t''))
               (Str (lit ''done'')))) < 999)
   \<and> moveTaskToPosition
        [exampleTask ''t'' ''done'', exampleTask ''x'' ''todo'', exampleTask ''d1'' ''done'',
         exampleTask ''d2'' ''done'']
        (lit ''t'') (Str (lit ''done'')) 999
       = [exampleTask ''x'' ''todo'', exampleTask ''d1'' ''done'', exampleTask ''d2'' ''done'',
          exampleTask ''t'' ''done'']
   \<and> getTasksByStatus
        (moveTaskToPosition
           [exampleTask ''t'' ''done'', exampleTask ''x'' ''todo'', exampleTask ''d1'' ''done'',
            exampleTask ''d2'' ''done'']
           (lit ''t'') (Str (lit ''done'')) 999) (Str (lit ''done''))
       = [exampleTask ''d1'' ''done'', exampleTask ''d2'' ''done'', exampleTask ''t'' ''done'']"
proof -
  let ?tasks = "[exampleTask ''t'' ''done'', exampleTask ''x'' ''todo'',
                 exampleTask ''d1'' ''done'', exampleTask ''d2'' ''done'']"
  have h1: "List.find (\<lambda>t. task_id t = lit ''t'') ?tasks = Some (exampleTask ''t'' ''done'')"
    by (simp add: exampleTask_def lit_def)
  have d: "deleteTask ?tasks (lit ''t'') =
             [exampleTask ''x'' ''todo'', exampleTask ''d1'' ''done'', exampleTask ''d2'' ''done'']"
    by (simp add: deleteTask_def splice_def Let_def exampleTask_def lit_def)
  have g: "getTasksByStatus
             [exampleTask ''x'' ''todo'', exampleTask ''d1'' ''done'', exampleTask ''d2'' ''done'']
             (Str (lit ''done'')) = [exampleTask ''d1'' ''done'', exampleTask ''d2'' ''done'']"
    by (simp add: getTasksByStatus_def exampleTask_def lit_def)
  have h2: "(999::int) < 0 \<or>
        int (length (getTasksByStatus (deleteTask ?tasks (lit ''t'')) (Str (lit ''done'')))) < 999"
    unfolding d g by simp
  have f: "filter (\<lambda>x. status x \<noteq> Str (lit ''done''))
             [exampleTask ''x'' ''todo'', exampleTask ''d1'' ''done'', exampleTask ''d2'' ''done'']
           = [exampleTask ''x'' ''todo'']"
    by (simp add: exampleTask_def lit_def)
  have s: "status (exampleTask ''t'' ''done'') = Str (lit ''done'')"
    by (simp add: exampleTask_def)
  note r = moveTaskToPosition_clamps_to_end [OF h1 h2, unfolded d g f s]
  from r [THEN conjunct1] have r1: "moveTaskToPosition ?tasks (lit ''t'') (Str (lit ''done'')) 999 =
      [exampleTask ''x'' ''todo'', exampleTask ''d1'' ''done'', exampleTask ''d2'' ''done'',
       exampleTask ''t'' ''done'']"
    by simp
  from r [THEN conjunct2] have r2: "getTasksByStatus (moveTaskToPosition ?tasks (lit ''t'') (Str (lit ''done'')) 999)
      (Str (lit ''done'')) =
      [exampleTask ''d1'' ''done'', exampleTask ''d2'' ''done'', exampleTask ''t'' ''done'']"
    by simp
  show ?thesis
    by (intro conjI) (rule h1, rule h2, rule r1, rule r2)
qed

text \<open>
  Claim C8 as stated fails for a task of another status: moving a \<open>todo\<close> task to
  \<open>done\<close> at position 999 puts it last in the list, with its status \<open>todo\<close>, and the
  \<open>done\<close> view keeps its two entries.
\<close>

theorem moveTaskToPosition_other_status_counterexample:
  "moveTaskToPosition
     [exampleTask ''t'' ''todo'', exampleTask ''d1'' ''done'', exampleTask ''d2'' ''done'']
     (lit ''t'') (Str (lit ''done'')) 999
     = [exampleTask ''d1'' ''done'', exampleTask ''d2'' ''done'', exampleTask ''t'' ''todo'']
   \<and> getTasksByStatus
       (moveTaskToPosition
          [exampleTask ''t'' ''todo'', exampleTask ''d1'' ''done'', exampleTask ''d2'' ''done'']
          (lit ''t'') (Str (lit ''done'')) 999)
       (Str (lit ''done''))
     = [exampleTask ''d1'' ''done'', exampleTask ''d2'' ''done'']"
  by (simp add: store_eval)




text \<open>
  Claim C10. \<open>createTask\<close> stores the trimmed title and description and checks no length:
  every title that is non-empty after trimming succeeds, whatever the lengths. The limits of
  100 and 500 code units are checked by \<open>handleFormSubmission\<close>, which shows a field error
  and leaves the task list as it was.
\<close>

theorem createTask_no_length_limit:
  "(trim ttl \<noteq> [] \<longrightarrow>
      (\<exists>t. createTask tasks ttl descr newId now1 now2 = (Inr t, tasks @ [t])
           \<and> title t = trim ttl \<and> description t = trim descr))
   \<and> (100 < length (trim ttl) \<or> 500 < length (trim descr) \<longrightarrow>
        (\<exists>f msg. handleFormSubmission tasks ttl descr newId now1 now2 =
                   (ShowFieldError f msg, tasks)))"
  by (simp add: createTask_def handleFormSubmission_def Let_def)

theorem createTask_no_length_limit_witness:
  "trim (replicate 101 0x61) \<noteq> [] \<and> 100 < length (trim (replicate 101 0x61))
   \<and> (\<exists>t. createTask [] (replicate 101 0x61) (replicate 501 0x62) (lit ''n'') [] [] = (Inr t, [] @ [t])
          \<and> title t = replicate 101 0x61 \<and> description t = replicate 501 0x62)
   \<and> (\<exists>f msg. handleFormSubmission [] (replicate 101 0x61) (replicate 501 0x62) (lit ''n'') [] [] =
                (ShowFieldError f msg, []))"
proof -
  have t1: "trim (replicate 101 0x61) = replicate 101 0x61"
    by (simp add: trim_def isWhiteSpace_def)
  have t2: "trim (replicate 501 0x62) = replicate 501 0x62"
    by (simp add: trim_def isWhiteSpace_def)
  have n: "replicate 101 (0x61 :: 16 word) \<noteq> []" by simp
  show ?thesis
    using createTask_no_length_limit [of "replicate 101 0x61" "[]" "replicate 501 0x62" "lit ''n''" "[]" "[]"]
    unfolding t1 t2 using n by simp
qed

section \<open>Properties of drag and drop\<close>

lemmas dnd_eval = handleInsertionPoint_def updatePlaceholderPosition_def
  cardsBeforePlaceholder_def midpointsAbove_def exampleCard_def Let_def

lemmas drop_eval = handleDrop_def getInsertionIndex_def cleanupDragState_def exampleDrag_def
  exampleColumn_def

lemma insertAfterLoop_takeWhile:
  "insertAfterLoop mouseY cs i acc =
     (if takeWhile (\<lambda>c. cardMiddle c < mouseY) cs = [] then acc
      else Some (i + length (takeWhile (\<lambda>c. cardMiddle c < mouseY) cs) - 1))"
  by (induction cs arbitrary: i acc) auto

lemma taskCards_remove_placeholder:
  "taskCards (filter (\<lambda>n. n \<noteq> PlaceholderNode) children) = taskCards children"
  by (induction children rule: taskCards.induct) auto

lemma cardsBeforePlaceholder_first: "cardsBeforePlaceholder (PlaceholderNode # children) = 0"
  by (simp add: cardsBeforePlaceholder_def)

lemma cardsBeforePlaceholder_insertAfterCard:
  "PlaceholderNode \<notin> set children \<Longrightarrow> i < length (taskCards children) \<Longrightarrow>
     cardsBeforePlaceholder (insertAfterCard i children) = i + 1"
  by (induction i children rule: insertAfterCard.induct)
    (auto simp: cardsBeforePlaceholder_def)

lemma takeWhile_filter_sorted:
  "sorted (map f xs) \<Longrightarrow> takeWhile (\<lambda>x. f x < (y::real)) xs = filter (\<lambda>x. f x < y) xs"
proof (induction xs)
  case Nil
  then show ?case by simp
next
  case (Cons x xs)
  show ?case
  proof (cases "f x < y")
    case True
    with Cons show ?thesis by simp
  next
    case False
    from Cons.prems have "\<forall>z\<in>set xs. f x \<le> f z" by simp
    with False have "\<forall>z\<in>set xs. \<not> f z < y" by auto
    then have "filter (\<lambda>x. f x < y) xs = []" by (simp add: filter_empty_conv)
    with False show ?thesis by simp
  qed
qed

lemma cardsBeforePlaceholder_updated:
  assumes "placeholder dd = Some p" and "PlaceholderNode \<in> set children \<longrightarrow> parentNode p"
  shows "cardsBeforePlaceholder
           (snd (updatePlaceholderPosition dd children
              (insertAfterLoop mouseY (taskCards children) 0 None))) =
         length (takeWhile (\<lambda>c. cardMiddle c < mouseY) (taskCards children))"
proof -
  define children1 where
    "children1 = (if parentNode p then filter (\<lambda>n. n \<noteq> PlaceholderNode) children else children)"
  have np: "PlaceholderNode \<notin> set children1"
    using assms(2) unfolding children1_def by auto
  have tc: "taskCards children1 = taskCards children"
    unfolding children1_def by (simp add: taskCards_remove_placeholder)
  define tw where "tw = takeWhile (\<lambda>c. cardMiddle c < mouseY) (taskCards children)"
  have le: "length tw \<le> length (taskCards children)"
    unfolding tw_def by (rule length_takeWhile_le)
  show ?thesis
  proof (cases "tw = []")
    case True
    then have "insertAfterLoop mouseY (taskCards children) 0 None = None"
      unfolding tw_def by (simp add: insertAfterLoop_takeWhile)
    then show ?thesis
      using assms(1) True unfolding tw_def[symmetric]
      by (simp add: updatePlaceholderPosition_def Let_def cardsBeforePlaceholder_first)
  next
    case False
    then have l: "insertAfterLoop mouseY (taskCards children) 0 None = Some (length tw - 1)"
      unfolding tw_def by (simp add: insertAfterLoop_takeWhile)
    from False have pos: "0 < length tw" by simp
    with le have "length tw - 1 < length (taskCards children1)" unfolding tc by arith
    from cardsBeforePlaceholder_insertAfterCard[OF np this] pos
    have "cardsBeforePlaceholder (insertAfterCard (length tw - 1) children1) = length tw" by simp
    then show ?thesis
      using assms(1) unfolding l tw_def[symmetric]
      by (simp add: updatePlaceholderPosition_def Let_def children1_def)
  qed
qed

lemma updateTaskStatus_sets_status:
  assumes "taskId \<in> task_id ` set tasks"
  shows "\<exists>t\<in>set (updateTaskStatus tasks taskId newStatus now).
           task_id t = taskId \<and> status t = newStatus"
proof -
  from assms have "List.find (\<lambda>t. task_id t = taskId) tasks \<noteq> None"
    by (auto simp: find_none_iff)
  then obtain t where "List.find (\<lambda>t. task_id t = taskId) tasks = Some t" by blast
  from find_split[OF this] obtain as bs where
    s: "tasks = as @ t # bs" "\<forall>a\<in>set as. task_id a \<noteq> taskId" "task_id t = taskId" by blast
  show ?thesis
    unfolding s(1) updateTaskStatus_split[OF s(2,3)] using s(3) by simp
qed

text \<open>
  The comparison is strict: a pointer at the very midpoint the code has computed puts the
  placeholder before that card.
\<close>

lemma pointer_on_midpoint:
  "handleInsertionPoint
     \<lparr> draggedElement = Some (exampleCard 400), placeholder = Some (Elem False) \<rparr> 150
     \<lparr> dataStatus = Str (lit ''todo''), columnContent = Some [TaskCard (exampleCard 150)] \<rparr>
     = (\<lparr> draggedElement = Some (exampleCard 400), placeholder = Some (Elem True) \<rparr>,
        \<lparr> dataStatus = Str (lit ''todo''),
          columnContent = Some [PlaceholderNode, TaskCard (exampleCard 150)] \<rparr>)"
  by (simp add: dnd_eval)

text \<open>
  Claim C3, as the code has it. The loop stops at the first card whose midpoint is at or
  below the pointer, so during a drag the placeholder is put after as many non-dragged
  cards as the longest run from the top of cards whose midpoints are strictly above the
  pointer. When the midpoints do not decrease in DOM order (cards stacked top to bottom),
  that is the number of cards whose midpoint is strictly above the pointer.
\<close>

theorem handleInsertionPoint_index:
  assumes "placeholder dd = Some p" and "columnContent col = Some children"
    and "PlaceholderNode \<in> set children \<longrightarrow> parentNode p"
  shows "\<exists>dd2 children2.
           handleInsertionPoint dd mouseY col = (dd2, col\<lparr> columnContent := Some children2 \<rparr>)
         \<and> cardsBeforePlaceholder children2 =
             length (takeWhile (\<lambda>c. cardMiddle c < mouseY) (taskCards children))
         \<and> (sorted (map cardMiddle (taskCards children)) \<longrightarrow>
              cardsBeforePlaceholder children2 = midpointsAbove mouseY (taskCards children))"
proof -
  obtain dd2 children2 where
    u: "updatePlaceholderPosition dd children (insertAfterLoop mouseY (taskCards children) 0 None)
          = (dd2, children2)"
    by (cases "updatePlaceholderPosition dd children (insertAfterLoop mouseY (taskCards children) 0 None)")
  have h: "handleInsertionPoint dd mouseY col = (dd2, col\<lparr> columnContent := Some children2 \<rparr>)"
    using assms(2) u by (simp add: handleInsertionPoint_def Let_def)
  have c: "cardsBeforePlaceholder children2 =
             length (takeWhile (\<lambda>c. cardMiddle c < mouseY) (taskCards children))"
    using cardsBeforePlaceholder_updated[OF assms(1,3), of mouseY] unfolding u by simp
  have s: "cardsBeforePlaceholder children2 = midpointsAbove mouseY (taskCards children)"
    if "sorted (map cardMiddle (taskCards children))"
    unfolding c midpointsAbove_def using takeWhile_filter_sorted[OF that, of mouseY] by simp
  from h c s show ?thesis by blast
qed

theorem handleInsertionPoint_index_witness:
  "placeholder \<lparr> draggedElement = Some (exampleCard 400), placeholder = Some (Elem False) \<rparr>
     = Some (Elem False)
   \<and> columnContent
       \<lparr> dataStatus = Str (lit ''todo''),
         columnContent = Some [TaskCard (exampleCard 100), TaskCard (exampleCard 200),
                               TaskCard (exampleCard 300)] \<rparr>
     = Some [TaskCard (exampleCard 100), TaskCard (exampleCard 200), TaskCard (exampleCard 300)]
   \<and> PlaceholderNode \<notin> set [TaskCard (exampleCard 100), TaskCard (exampleCard 200),
                              TaskCard (exampleCard 300)]
   \<and> map cardMiddle (taskCards [TaskCard (exampleCard 100), TaskCard (exampleCard 200),
                                 TaskCard (exampleCard 300)]) = [100, 200, 300]
   \<and> sorted (map cardMiddle (taskCards [TaskCard (exampleCard 100), TaskCard (exampleCard 200),
                                         TaskCard (exampleCard 300)]))
   \<and> midpointsAbove 150 (taskCards [TaskCard (exampleCard 100), TaskCard (exampleCard 200),
                                    TaskCard (exampleCard 300)]) = 1
   \<and> (\<exists>dd2 children2.
         handleInsertionPoint
           \<lparr> draggedElement = Some (exampleCard 400), placeholder = Some (Elem False) \<rparr> 150
           \<lparr> dataStatus = Str (lit ''todo''),
             columnContent = Some [TaskCard (exampleCard 100), TaskCard (exampleCard 200),
                                   TaskCard (exampleCard 300)] \<rparr>
           = (dd2, \<lparr> dataStatus = Str (lit ''todo''), columnContent = Some children2 \<rparr>)
         \<and> cardsBeforePlaceholder children2 = 1)"
proof -
  let ?dd = "\<lparr> draggedElement = Some (exampleCard 400), placeholder = Some (Elem False) \<rparr>"
  let ?children = "[TaskCard (exampleCard 100), TaskCard (exampleCard 200), TaskCard (exampleCard 300)]"
  let ?col = "\<lparr> dataStatus = Str (lit ''todo''), columnContent = Some ?children \<rparr>"
  have h1: "placeholder ?dd = Some (Elem False)" by simp
  have h2: "columnContent ?col = Some ?children" by simp
  have h3: "PlaceholderNode \<in> set ?children \<longrightarrow> parentNode (Elem False)" by simp
  have n: "PlaceholderNode \<notin> set ?children" by simp
  have m: "map cardMiddle (taskCards ?children) = [100, 200, 300]"
    by (simp add: exampleCard_def)
  have s: "sorted (map cardMiddle (taskCards ?children))" unfolding m by simp
  have a: "midpointsAbove 150 (taskCards ?children) = 1"
    by (simp add: midpointsAbove_def exampleCard_def)
  from handleInsertionPoint_index [OF h1 h2 h3, of 150] s
  obtain dd2 children2 where
    r: "handleInsertionPoint ?dd 150 ?col = (dd2, ?col\<lparr> columnContent := Some children2 \<rparr>)"
       "cardsBeforePlaceholder children2 = midpointsAbove 150 (taskCards ?children)"
    by blast
  from r(1) have r1: "handleInsertionPoint ?dd 150 ?col =
      (dd2, \<lparr> dataStatus = Str (lit ''todo''), columnContent = Some children2 \<rparr>)" by simp
  from r(2) have r2: "cardsBeforePlaceholder children2 = 1" unfolding a .
  from r1 r2 have e: "\<exists>dd2 children2. handleInsertionPoint ?dd 150 ?col =
      (dd2, \<lparr> dataStatus = Str (lit ''todo''), columnContent = Some children2 \<rparr>)
      \<and> cardsBeforePlaceholder children2 = 1" by blast
  show ?thesis
    by (intro conjI) (rule h1, rule h2, rule n, rule m, rule s, rule a, rule e)
qed

text \<open>
  Claim C3 as stated fails for midpoints that are not in increasing order: for 100, 300,
  200 and the pointer at 250 the placeholder goes after the first card, while two cards
  have their midpoint above the pointer.
\<close>

theorem handleInsertionPoint_unsorted_counterexample:
  "handleInsertionPoint
     \<lparr> draggedElement = Some (exampleCard 400), placeholder = Some (Elem False) \<rparr> 250
     \<lparr> dataStatus = Str (lit ''todo''),
       columnContent = Some [TaskCard (exampleCard 100), TaskCard (exampleCard 300),
                             TaskCard (exampleCard 200)] \<rparr>
     = (\<lparr> draggedElement = Some (exampleCard 400), placeholder = Some (Elem True) \<rparr>,
        \<lparr> dataStatus = Str (lit ''todo''),
          columnContent = Some [TaskCard (exampleCard 100), PlaceholderNode,
                                TaskCard (exampleCard 300), TaskCard (exampleCard 200)] \<rparr>)
   \<and> cardsBeforePlaceholder [TaskCard (exampleCard 100), PlaceholderNode,
                              TaskCard (exampleCard 300), TaskCard (exampleCard 200)] = 1
   \<and> midpointsAbove 250 (taskCards [TaskCard (exampleCard 100), TaskCard (exampleCard 300),
                                    TaskCard (exampleCard 200)]) = 2"
  by (simp add: dnd_eval)

text \<open>
  Claim C4, as the code has it. \<open>handleDrop\<close> leaves the task list and the drag state as
  they are when no drag is running or the target is in no column; the drag state that
  such an early return leaves is cleared by \<open>handleDragEnd\<close>. For a drop in a column the
  status tag is used as it is, recognised or not: \<open>updateTaskStatus\<close> runs with it, so
  a task with the dropped id has the tag as its status afterwards, and the task list is
  unchanged when no task has the dropped id. Reading the insertion index throws a
  \<open>TypeError\<close> exactly when the placeholder has a parent and the column has no
  \<^verbatim>\<open>.column-content\<close> element: the status is then written, the task is not moved
  and the drag state is not cleared. In every other case \<open>moveTaskToPosition\<close> runs with
  the tag and the index read, and the drag state is cleared.
\<close>

theorem handleDrop_does_not_validate_status:
  "(draggedElement dd = None \<or> closestColumn e = None \<longrightarrow>
      handleDrop dd tasks e now = (None, tasks, dd))
   \<and> (draggedElement dd \<noteq> None \<and> closestColumn e = Some col \<longrightarrow>
        (getInsertionIndex dd col = Inl TypeError \<longrightarrow>
           handleDrop dd tasks e now =
             (Some TypeError, updateTaskStatus tasks (transferData e) (dataStatus col) now, dd))
        \<and> (getInsertionIndex dd col = Inr i \<longrightarrow>
             handleDrop dd tasks e now =
               (None,
                moveTaskToPosition (updateTaskStatus tasks (transferData e) (dataStatus col) now)
                  (transferData e) (dataStatus col) i,
                \<lparr> draggedElement = None, placeholder = None \<rparr>))
        \<and> (transferData e \<in> task_id ` set tasks \<longrightarrow>
             (\<exists>t\<in>set (fst (snd (handleDrop dd tasks e now))).
                task_id t = transferData e \<and> status t = dataStatus col))
        \<and> (transferData e \<notin> task_id ` set tasks \<longrightarrow>
             fst (snd (handleDrop dd tasks e now)) = tasks))
   \<and> (getInsertionIndex dd col = Inl TypeError) =
       (placeholder dd = Some (Elem True) \<and> columnContent col = None)
   \<and> handleDragEnd dd = \<lparr> draggedElement = None, placeholder = None \<rparr>"
proof -
  let ?id = "transferData e" and ?st = "dataStatus col"
  let ?tasks1 = "updateTaskStatus tasks ?id ?st now"
  have a: "handleDrop dd tasks e now = (None, tasks, dd)"
    if "draggedElement dd = None \<or> closestColumn e = None"
    using that by (auto simp: handleDrop_def split: option.splits)
  have b1: "handleDrop dd tasks e now = (Some TypeError, ?tasks1, dd)"
    if "draggedElement dd \<noteq> None" "closestColumn e = Some col"
       "getInsertionIndex dd col = Inl TypeError"
    using that by (auto simp: handleDrop_def Let_def)
  have b2: "handleDrop dd tasks e now =
          (None, moveTaskToPosition ?tasks1 ?id ?st i,
           \<lparr> draggedElement = None, placeholder = None \<rparr>)"
    if "draggedElement dd \<noteq> None" "closestColumn e = Some col" "getInsertionIndex dd col = Inr i"
    using that by (auto simp: handleDrop_def Let_def cleanupDragState_def)
  have v: "fst (snd (handleDrop dd tasks e now)) = ?tasks1 \<or>
           (\<exists>j. fst (snd (handleDrop dd tasks e now)) = moveTaskToPosition ?tasks1 ?id ?st j)"
    if h: "draggedElement dd \<noteq> None" "closestColumn e = Some col"
  proof (cases "getInsertionIndex dd col")
    case (Inl err)
    then have "getInsertionIndex dd col = Inl TypeError" by (cases err) simp
    from b1[OF h this] show ?thesis by simp
  next
    case (Inr j)
    from h Inr have "handleDrop dd tasks e now =
          (None, moveTaskToPosition ?tasks1 ?id ?st j, cleanupDragState dd)"
      by (auto simp: handleDrop_def Let_def)
    then show ?thesis by auto
  qed
  have c: "\<exists>t\<in>set (fst (snd (handleDrop dd tasks e now))). task_id t = ?id \<and> status t = ?st"
    if h: "draggedElement dd \<noteq> None" "closestColumn e = Some col"
      and i: "?id \<in> task_id ` set tasks"
  proof -
    note u = updateTaskStatus_sets_status[OF i, of ?st now]
    from v[OF h] show ?thesis
    proof
      assume "fst (snd (handleDrop dd tasks e now)) = ?tasks1"
      with u show ?thesis by simp
    next
      assume "\<exists>j. fst (snd (handleDrop dd tasks e now)) = moveTaskToPosition ?tasks1 ?id ?st j"
      then obtain j where "fst (snd (handleDrop dd tasks e now)) = moveTaskToPosition ?tasks1 ?id ?st j"
        by blast
      with u show ?thesis by (simp add: set_moveTaskToPosition)
    qed
  qed
  have d: "fst (snd (handleDrop dd tasks e now)) = tasks"
    if h: "draggedElement dd \<noteq> None" "closestColumn e = Some col"
      and n: "?id \<notin> task_id ` set tasks"
  proof -
    from n have "\<forall>t\<in>set tasks. \<not> task_id t = ?id"
      by (metis image_eqI)
    then have f: "List.find (\<lambda>t. task_id t = ?id) tasks = None"
      by (simp add: find_none_iff)
    then have u: "?tasks1 = tasks" by (simp add: updateTaskStatus_def)
    have m: "moveTaskToPosition tasks ?id ?st j = tasks" for j
      using f by (simp add: moveTaskToPosition_def)
    from v[OF h] show ?thesis unfolding u using m by auto
  qed
  have t: "(getInsertionIndex dd col = Inl TypeError) =
       (placeholder dd = Some (Elem True) \<and> columnContent col = None)"
  proof (cases "placeholder dd")
    case None
    then show ?thesis by (simp add: getInsertionIndex_def)
  next
    case (Some p)
    then show ?thesis
      by (cases p) (auto simp: getInsertionIndex_def split: option.splits)
  qed
  have z: "handleDragEnd dd = \<lparr> draggedElement = None, placeholder = None \<rparr>"
    by (simp add: handleDragEnd_def cleanupDragState_def)
  show ?thesis
    using a b1 b2 c d t z by blast
qed

theorem handleDrop_does_not_validate_status_witness:
  "handleDrop exampleDrag [exampleTask ''a'' ''todo'', exampleTask ''b'' ''todo'']
      \<lparr> closestColumn = None, transferData = lit ''a'' \<rparr> (lit ''T'')
     = (None, [exampleTask ''a'' ''todo'', exampleTask ''b'' ''todo''], exampleDrag)
   \<and> getInsertionIndex exampleDrag (exampleColumn (Str (lit ''archived''))) = Inr 0
   \<and> handleDrop exampleDrag [exampleTask ''a'' ''todo'', exampleTask ''b'' ''todo'']
        \<lparr> closestColumn = Some (exampleColumn (Str (lit ''archived''))), transferData = lit ''a'' \<rparr>
        (lit ''T'')
     = (None,
        [exampleTask ''b'' ''todo'',
         (exampleTask ''a'' ''todo'')\<lparr> status := Str (lit ''archived''), updatedAt := lit ''T'' \<rparr>],
        \<lparr> draggedElement = None, placeholder = None \<rparr>)
   \<and> handleDrop exampleDrag [exampleTask ''a'' ''todo'', exampleTask ''b'' ''todo'']
        \<lparr> closestColumn = Some (exampleColumn (Str (lit ''archived''))),
          transferData = lit ''nope'' \<rparr> (lit ''T'')
     = (None, [exampleTask ''a'' ''todo'', exampleTask ''b'' ''todo''],
        \<lparr> draggedElement = None, placeholder = None \<rparr>)
   \<and> getInsertionIndex exampleDrag
        \<lparr> dataStatus = Str (lit ''archived''), columnContent = None \<rparr> = Inl TypeError
   \<and> handleDrop exampleDrag [exampleTask ''a'' ''todo'', exampleTask ''b'' ''todo'']
        \<lparr> closestColumn = Some \<lparr> dataStatus = Str (lit ''archived''), columnContent = None \<rparr>,
          transferData = lit ''a'' \<rparr> (lit ''T'')
     = (Some TypeError,
        [(exampleTask ''a'' ''todo'')\<lparr> status := Str (lit ''archived''), updatedAt := lit ''T'' \<rparr>,
         exampleTask ''b'' ''todo''],
        exampleDrag)"
proof -
  let ?tasks = "[exampleTask ''a'' ''todo'', exampleTask ''b'' ''todo'']"
  let ?col = "exampleColumn (Str (lit ''archived''))"
  let ?bare = "\<lparr> dataStatus = Str (lit ''archived''), columnContent = None \<rparr>"
  let ?e0 = "\<lparr> closestColumn = None, transferData = lit ''a'' \<rparr>"
  let ?e1 = "\<lparr> closestColumn = Some ?col, transferData = lit ''a'' \<rparr>"
  let ?e2 = "\<lparr> closestColumn = Some ?col, transferData = lit ''nope'' \<rparr>"
  let ?e3 = "\<lparr> closestColumn = Some ?bare, transferData = lit ''a'' \<rparr>"
  have d: "draggedElement exampleDrag \<noteq> None" by (simp add: exampleDrag_def)
  have g: "getInsertionIndex exampleDrag ?col = Inr 0"
    by (simp add: getInsertionIndex_def exampleDrag_def exampleColumn_def indexOf_def)
  have k: "dataStatus ?col = Str (lit ''archived'')" by (simp add: exampleColumn_def)
  have i1: "lit ''a'' \<in> task_id ` set ?tasks" by (simp add: exampleTask_def)
  have i2: "lit ''nope'' \<notin> task_id ` set ?tasks" by (simp add: exampleTask_def lit_def)
  note t0 = handleDrop_does_not_validate_status
    [where dd = exampleDrag and e = ?e0 and tasks = ?tasks and now = "lit ''T''"]
  note t1 = handleDrop_does_not_validate_status
    [where dd = exampleDrag and e = ?e1 and tasks = ?tasks and now = "lit ''T''"
       and col = ?col and i = 0]
  note t2 = handleDrop_does_not_validate_status
    [where dd = exampleDrag and e = ?e2 and tasks = ?tasks and now = "lit ''T''"
       and col = ?col and i = 0]
  note t3 = handleDrop_does_not_validate_status
    [where dd = exampleDrag and e = ?e3 and tasks = ?tasks and now = "lit ''T''"
       and col = ?bare]
  have c0: "draggedElement exampleDrag = None \<or> closestColumn ?e0 = None" by simp
  from t0 c0 have w0: "handleDrop exampleDrag ?tasks ?e0 (lit ''T'') = (None, ?tasks, exampleDrag)"
    by blast
  have c1: "closestColumn ?e1 = Some ?col" by simp
  have c2: "closestColumn ?e2 = Some ?col" by simp
  have c3: "closestColumn ?e3 = Some ?bare" by simp
  have j1: "transferData ?e1 \<in> task_id ` set ?tasks" using i1 by simp
  have j2: "transferData ?e2 \<notin> task_id ` set ?tasks" using i2 by simp
  have m: "moveTaskToPosition
             (updateTaskStatus ?tasks (transferData ?e1) (dataStatus ?col) (lit ''T''))
             (transferData ?e1) (dataStatus ?col) 0
           = [exampleTask ''b'' ''todo'',
              (exampleTask ''a'' ''todo'')\<lparr> status := Str (lit ''archived''), updatedAt := lit ''T'' \<rparr>]"
    unfolding k by (simp add: store_eval)
  from t1 d c1 g have "handleDrop exampleDrag ?tasks ?e1 (lit ''T'') =
      (None,
       moveTaskToPosition (updateTaskStatus ?tasks (transferData ?e1) (dataStatus ?col) (lit ''T''))
         (transferData ?e1) (dataStatus ?col) 0,
       \<lparr> draggedElement = None, placeholder = None \<rparr>)"
    by blast
  then have w1: "handleDrop exampleDrag ?tasks ?e1 (lit ''T'') =
      (None,
       [exampleTask ''b'' ''todo'',
        (exampleTask ''a'' ''todo'')\<lparr> status := Str (lit ''archived''), updatedAt := lit ''T'' \<rparr>],
       \<lparr> draggedElement = None, placeholder = None \<rparr>)"
    unfolding m .
  from t1 d c1 j1 have "\<exists>t\<in>set (fst (snd (handleDrop exampleDrag ?tasks ?e1 (lit ''T'')))).
      task_id t = transferData ?e1 \<and> status t = dataStatus ?col"
    by blast
  from t2 d c2 j2 have f: "fst (snd (handleDrop exampleDrag ?tasks ?e2 (lit ''T''))) = ?tasks"
    by blast
  from t2 d c2 g have h: "handleDrop exampleDrag ?tasks ?e2 (lit ''T'') =
      (None,
       moveTaskToPosition (updateTaskStatus ?tasks (transferData ?e2) (dataStatus ?col) (lit ''T''))
         (transferData ?e2) (dataStatus ?col) 0,
       \<lparr> draggedElement = None, placeholder = None \<rparr>)"
    by blast
  from f have "moveTaskToPosition
         (updateTaskStatus ?tasks (transferData ?e2) (dataStatus ?col) (lit ''T''))
         (transferData ?e2) (dataStatus ?col) 0 = ?tasks"
    unfolding h by simp
  with h have w2: "handleDrop exampleDrag ?tasks ?e2 (lit ''T'') =
      (None, ?tasks, \<lparr> draggedElement = None, placeholder = None \<rparr>)"
    by simp
  have p: "placeholder exampleDrag = Some (Elem True) \<and> columnContent ?bare = None"
    by (simp add: exampleDrag_def)
  from t3 p have g3: "getInsertionIndex exampleDrag ?bare = Inl TypeError"
    by blast
  have u: "updateTaskStatus ?tasks (transferData ?e3) (dataStatus ?bare) (lit ''T'') =
      [(exampleTask ''a'' ''todo'')\<lparr> status := Str (lit ''archived''), updatedAt := lit ''T'' \<rparr>,
       exampleTask ''b'' ''todo'']"
    by (simp add: store_eval)
  from t3 d c3 g3 have "handleDrop exampleDrag ?tasks ?e3 (lit ''T'') =
      (Some TypeError,
       updateTaskStatus ?tasks (transferData ?e3) (dataStatus ?bare) (lit ''T''), exampleDrag)"
    by blast
  then have w3: "handleDrop exampleDrag ?tasks ?e3 (lit ''T'') =
      (Some TypeError,
       [(exampleTask ''a'' ''todo'')\<lparr> status := Str (lit ''archived''), updatedAt := lit ''T'' \<rparr>,
        exampleTask ''b'' ''todo''],
       exampleDrag)"
    unfolding u .
  show ?thesis
    by (intro conjI) (rule w0, rule g, rule w1, rule w2, rule g3, rule w3)
qed

text \<open>
  Claim C4 as stated fails: a drop on a column whose status tag is \<open>archived\<close>, or is
  missing, writes that value into the dropped task.
\<close>

theorem handleDrop_unrecognized_status_counterexample:
  "\<not> validStatus (Str (lit ''archived'')) \<and> \<not> validStatus Undefined
   \<and> map status [exampleTask ''a'' ''todo'', exampleTask ''b'' ''todo'']
       = [Str (lit ''todo''), Str (lit ''todo'')]
   \<and> map status
       (fst (snd (handleDrop exampleDrag [exampleTask ''a'' ''todo'', exampleTask ''b'' ''todo'']
          \<lparr> closestColumn = Some (exampleColumn (Str (lit ''archived''))),
            transferData = lit ''a'' \<rparr> (lit ''T''))))
       = [Str (lit ''todo''), Str (lit ''archived'')]
   \<and> map status
       (fst (snd (handleDrop exampleDrag [exampleTask ''a'' ''todo'', exampleTask ''b'' ''todo'']
          \<lparr> closestColumn = Some (exampleColumn Undefined), transferData = lit ''a'' \<rparr>
          (lit ''T''))))
       = [Str (lit ''todo''), Undefined]"
  by (simp add: drop_eval store_eval validStatus_def)

end
